theory Spec2Isabelle
  imports Complex_Main "HOL-Library.AList" "HOL-Library.Log_Nat"
begin

section \<open>Python values and exceptions\<close>

text \<open>
  The ingestion pipeline of \<^verbatim>\<open>app.py\<close> (class \<^verbatim>\<open>JobScraper\<close>) looks at a cell of
  the scraped table only through \<^verbatim>\<open>pd.isna\<close>, \<^verbatim>\<open>isinstance(_, str)\<close>,
  \<^verbatim>\<open>isinstance(_, list)\<close>, \<^verbatim>\<open>is not None\<close> and \<^verbatim>\<open>str\<close>. A cell is therefore one of:
  \<^item> \<open>PyNone\<close>: Python's \<^verbatim>\<open>None\<close>;
  \<^item> \<open>PyNaN\<close>: the float NaN, pandas' missing-value marker;
  \<^item> \<open>PyStr s\<close>: a \<^verbatim>\<open>str\<close> (characters below 128);
  \<^item> \<open>PyList xs\<close>: a \<^verbatim>\<open>list\<close> of \<^verbatim>\<open>str\<close>;
  \<^item> \<open>PyScalar s\<close>: any other scalar that is not missing (an int, a finite or infinite
    float, a bool, a date), given by the text \<^verbatim>\<open>str\<close> returns for it, the only
    observation the code makes of it.
\<close>

datatype pyval = PyNone | PyNaN | PyStr string | PyList "string list" | PyScalar string

text \<open>
  Exceptions, all subclasses of \<^verbatim>\<open>Exception\<close> (so \<^verbatim>\<open>except Exception\<close> catches each).
  \<open>OtherException\<close> stands for any other class, by name (network, provider and store errors).
\<close>

datatype py_error =
  ValueError | TypeError | OverflowError | AttributeError | OtherException string

text \<open>A \<^verbatim>\<open>try\<close> block whose handler catches the classes \<open>catches\<close> and yields \<open>hval\<close>.\<close>

definition try_except :: "py_error + 'a \<Rightarrow> (py_error \<Rightarrow> bool) \<Rightarrow> 'a \<Rightarrow> py_error + 'a" where
  "try_except body catches hval =
     (case body of Inl e \<Rightarrow> if catches e then Inr hval else Inl e | Inr x \<Rightarrow> Inr x)"

section \<open>Strings\<close>

text \<open>The ASCII characters \<^verbatim>\<open>str.strip\<close> and \<^verbatim>\<open>float\<close> treat as whitespace.\<close>

definition py_isspace :: "char \<Rightarrow> bool" where
  "py_isspace c = (of_char c \<in> {9::nat, 10, 11, 12, 13, 28, 29, 30, 31, 32})"

definition py_strip :: "string \<Rightarrow> string" where
  "py_strip s = rev (dropWhile py_isspace (rev (dropWhile py_isspace s)))"

text \<open>\<^verbatim>\<open>s.split(',')\<close>: never empty, one more piece than there are commas.\<close>

fun split_comma :: "string \<Rightarrow> string list" where
  "split_comma [] = [[]]"
| "split_comma (c # cs) =
     (if c = CHR '','' then [] # split_comma cs
      else (case split_comma cs of [] \<Rightarrow> [[c]] | w # ws \<Rightarrow> (c # w) # ws))"

definition is_digit :: "char \<Rightarrow> bool" where
  "is_digit c = (48 \<le> (of_char c :: nat) \<and> (of_char c :: nat) \<le> 57)"

definition digit_val :: "char \<Rightarrow> nat" where
  "digit_val c = of_char c - 48"

definition nat_of_digits :: "string \<Rightarrow> nat" where
  "nat_of_digits ds = foldl (\<lambda>a c. 10 * a + digit_val c) 0 ds"

definition ascii_lower :: "char \<Rightarrow> char" where
  "ascii_lower c =
     (if 65 \<le> (of_char c :: nat) \<and> (of_char c :: nat) \<le> 90
      then char_of (of_char c + (32::nat)) else c)"

text \<open>\<^verbatim>\<open>repr\<close> of a \<^verbatim>\<open>str\<close>, as it stands inside \<^verbatim>\<open>str\<close> of a list.\<close>

definition hex_digit :: "nat \<Rightarrow> char" where
  "hex_digit n = (if n < 10 then char_of (48 + n) else char_of (87 + n))"

definition repr_char :: "char \<Rightarrow> char \<Rightarrow> string" where
  "repr_char quote c =
     (if c = quote \<or> c = CHR 0x5C then [CHR 0x5C, c]
      else if c = CHR 0x09 then [CHR 0x5C, CHR ''t'']
      else if c = CHR 0x0A then [CHR 0x5C, CHR ''n'']
      else if c = CHR 0x0D then [CHR 0x5C, CHR ''r'']
      else if (of_char c :: nat) < 32 \<or> (of_char c :: nat) = 127
        then [CHR 0x5C, CHR ''x'', hex_digit (of_char c div 16), hex_digit (of_char c mod 16)]
      else [c])"

definition py_repr_str :: "string \<Rightarrow> string" where
  "py_repr_str s =
     (let quote = (if CHR 0x27 \<in> set s \<and> CHR 0x22 \<notin> set s then CHR 0x22 else CHR 0x27)
      in [quote] @ concat (map (repr_char quote) s) @ [quote])"

fun join_comma :: "string list \<Rightarrow> string" where
  "join_comma [] = []"
| "join_comma [x] = x"
| "join_comma (x # y # ys) = x @ '', '' @ join_comma (y # ys)"

text \<open>\<^verbatim>\<open>str(value)\<close>.\<close>

fun py_str :: "pyval \<Rightarrow> string" where
  "py_str PyNone = ''None''"
| "py_str PyNaN = ''nan''"
| "py_str (PyStr s) = s"
| "py_str (PyList xs) = ''['' @ join_comma (map py_repr_str xs) @ '']''"
| "py_str (PyScalar s) = s"

section \<open>Floats\<close>

text \<open>
  A Python float: a finite double by its exact value, the two infinities, or NaN
  (the sign of zero is not kept).
\<close>

datatype pyfloat = Finite rat | PosInf | NegInf | NaN

definition pow2 :: "int \<Rightarrow> rat" where
  "pow2 e = (if 0 \<le> e then 2 ^ nat e else 1 / 2 ^ nat (- e))"

definition round_half_even :: "rat \<Rightarrow> int" where
  "round_half_even q =
     (let f = \<lfloor>q\<rfloor>; d = q - of_int f
      in if d < 1 / 2 then f else if 1 / 2 < d then f + 1 else if even f then f else f + 1)"

text \<open>The binary exponent of a positive rational: \<open>2 ^ e \<le> q < 2 ^ (e + 1)\<close>.\<close>

definition binary_exponent :: "rat \<Rightarrow> int" where
  "binary_exponent q =
     (let (n, d) = quotient_of q;
          k = int (floorlog 2 (nat n)) - int (floorlog 2 (nat d))
      in if q < pow2 k then k - 1 else k)"

text \<open>
  The double nearest to a non-negative rational (IEEE 754 binary64, round half to even,
  subnormals below \<open>2 ^ -1022\<close>), or \<open>None\<close> when it rounds beyond the largest double.
\<close>

definition round_double :: "rat \<Rightarrow> rat option" where
  "round_double q =
     (if q = 0 then Some 0
      else let e = max (binary_exponent q) (- 1022);
               ulp = pow2 (e - 52);
               r = of_int (round_half_even (q / ulp)) * ulp
           in if pow2 1024 \<le> r then None else Some r)"

definition float_of_rat :: "bool \<Rightarrow> rat \<Rightarrow> pyfloat" where
  "float_of_rat neg q =
     (case round_double q of
        None \<Rightarrow> if neg then NegInf else PosInf
      | Some r \<Rightarrow> Finite (if neg then - r else r))"

text \<open>
  \<^verbatim>\<open>float(s)\<close> for a string. Underscores may only stand between two digits and are
  dropped; \<open>prev\<close> is the character before (\<^verbatim>\<open>'\0'\<close> at the start).
\<close>

fun drop_underscores :: "char \<Rightarrow> string \<Rightarrow> string option" where
  "drop_underscores prev [] = (if prev = CHR ''_'' then None else Some [])"
| "drop_underscores prev (c # cs) =
     (if c = CHR ''_'' then (if is_digit prev then drop_underscores c cs else None)
      else if prev = CHR ''_'' \<and> \<not> is_digit c then None
      else map_option ((#) c) (drop_underscores c cs))"

definition split_sign :: "string \<Rightarrow> bool \<times> string" where
  "split_sign s =
     (case s of
        c # cs \<Rightarrow> if c = CHR ''-'' then (True, cs) else if c = CHR ''+'' then (False, cs)
                  else (False, s)
      | [] \<Rightarrow> (False, []))"

text \<open>
  The exponent part: empty, or \<^verbatim>\<open>e\<close> or \<^verbatim>\<open>E\<close>, an optional sign and at least one
  digit up to the end of the text.
\<close>

definition parse_exponent :: "string \<Rightarrow> int option" where
  "parse_exponent s =
     (case s of
        [] \<Rightarrow> Some 0
      | c # cs \<Rightarrow>
          if ascii_lower c = CHR ''e'' then
            (let (neg, ds) = split_sign cs
             in if ds \<noteq> [] \<and> list_all is_digit ds
                then Some (if neg then - int (nat_of_digits ds) else int (nat_of_digits ds))
                else None)
          else None)"

text \<open>
  The unsigned decimal: digits, an optional point and digits, with a digit on at least
  one side of the point, then the exponent part.
\<close>

definition parse_decimal :: "string \<Rightarrow> rat option" where
  "parse_decimal s =
     (let ip = takeWhile is_digit s;
          r1 = dropWhile is_digit s;
          fp = (case r1 of c # cs \<Rightarrow> if c = CHR ''.'' then takeWhile is_digit cs else []
                | [] \<Rightarrow> []);
          r2 = (case r1 of c # cs \<Rightarrow> if c = CHR ''.'' then dropWhile is_digit cs else r1
                | [] \<Rightarrow> [])
      in if ip = [] \<and> fp = [] then None
         else (case parse_exponent r2 of
                 None \<Rightarrow> None
               | Some ex \<Rightarrow>
                   Some (of_nat (nat_of_digits (ip @ fp)) *
                         (let k = ex - int (length fp)
                          in if 0 \<le> k then 10 ^ nat k else 1 / 10 ^ nat (- k)))))"

definition py_float :: "string \<Rightarrow> py_error + pyfloat" where
  "py_float s =
     (case drop_underscores (CHR 0x00) (py_strip s) of
        None \<Rightarrow> Inl ValueError
      | Some t \<Rightarrow>
          (let (neg, body) = split_sign t; word = map ascii_lower body
           in if word = ''inf'' \<or> word = ''infinity'' then Inr (if neg then NegInf else PosInf)
              else if word = ''nan'' then Inr NaN
              else (case parse_decimal body of
                      None \<Rightarrow> Inl ValueError
                    | Some q \<Rightarrow> Inr (float_of_rat neg q))))"

text \<open>\<^verbatim>\<open>int(x)\<close> for a float: truncation towards zero.\<close>

definition py_int :: "pyfloat \<Rightarrow> py_error + int" where
  "py_int x =
     (case x of
        Finite q \<Rightarrow> Inr (if q < 0 then - \<lfloor>- q\<rfloor> else \<lfloor>q\<rfloor>)
      | PosInf \<Rightarrow> Inl OverflowError
      | NegInf \<Rightarrow> Inl OverflowError
      | NaN \<Rightarrow> Inl ValueError)"

section \<open>Missing values\<close>

text \<open>
  \<^verbatim>\<open>pd.isna\<close> answers a scalar with a bool and a list with an array of bools, one for
  each element. The truth value of an array, which \<^verbatim>\<open>if pd.isna(value):\<close> asks for,
  is its element's when it has one, \<^verbatim>\<open>False\<close> (with a deprecation warning) when it is
  empty, and a \<^verbatim>\<open>ValueError\<close> when it has more.
\<close>

datatype isna_result = IsnaScalar bool | IsnaArray "bool list"

fun pd_isna :: "pyval \<Rightarrow> isna_result" where
  "pd_isna PyNone = IsnaScalar True"
| "pd_isna PyNaN = IsnaScalar True"
| "pd_isna (PyStr s) = IsnaScalar False"
| "pd_isna (PyList xs) = IsnaArray (map (\<lambda>x. False) xs)"
| "pd_isna (PyScalar s) = IsnaScalar False"

fun truth_value :: "isna_result \<Rightarrow> py_error + bool" where
  "truth_value (IsnaScalar b) = Inr b"
| "truth_value (IsnaArray []) = Inr False"
| "truth_value (IsnaArray [b]) = Inr b"
| "truth_value (IsnaArray (b # c # bs)) = Inl ValueError"

section \<open>Cleaning one record\<close>

text \<open>What is written to the store for a field.\<close>

datatype cleaned = CNone | CInt int | CFloat pyfloat | CStr string | CList "string list"

definition int_fields :: "string list" where
  "int_fields = [''company_reviews_count'', ''vacancy_count'', ''min_amount'', ''max_amount'']"

definition array_fields :: "string list" where
  "array_fields = [''skills'', ''emails'']"

definition value_or_type_error :: "py_error \<Rightarrow> bool" where
  "value_or_type_error e = (e = ValueError \<or> e = TypeError)"

text \<open>
  \<^verbatim>\<open>int(float(str(value))) if str(value) != 'nan' else None\<close> under
  \<^verbatim>\<open>except (ValueError, TypeError)\<close>.
\<close>

definition clean_int :: "pyval \<Rightarrow> py_error + cleaned" where
  "clean_int v =
     try_except
       (if py_str v \<noteq> ''nan'' then
          (case py_float (py_str v) of
             Inl e \<Rightarrow> Inl e
           | Inr x \<Rightarrow> (case py_int x of Inl e \<Rightarrow> Inl e | Inr n \<Rightarrow> Inr (CInt n)))
        else Inr CNone)
       value_or_type_error CNone"

text \<open>
  \<^verbatim>\<open>[skill.strip() for skill in value.split(',') if skill.strip()]\<close> for a
  \<^verbatim>\<open>str\<close>, the value itself for a \<^verbatim>\<open>list\<close>, \<^verbatim>\<open>None\<close> otherwise.
\<close>

definition split_skills :: "string \<Rightarrow> string list" where
  "split_skills s = map py_strip (filter (\<lambda>skill. py_strip skill \<noteq> []) (split_comma s))"

fun clean_array :: "pyval \<Rightarrow> cleaned" where
  "clean_array (PyStr s) = CList (split_skills s)"
| "clean_array (PyList xs) = CList xs"
| "clean_array v = CNone"

text \<open>\<^verbatim>\<open>float(str(value)) if str(value) != 'nan' else None\<close> under the same handler.\<close>

definition clean_rating :: "pyval \<Rightarrow> py_error + cleaned" where
  "clean_rating v =
     try_except
       (if py_str v \<noteq> ''nan'' then
          (case py_float (py_str v) of Inl e \<Rightarrow> Inl e | Inr x \<Rightarrow> Inr (CFloat x))
        else Inr CNone)
       value_or_type_error CNone"

text \<open>The body of \<^verbatim>\<open>for key, value in job.items()\<close>: the value stored under \<open>key\<close>.\<close>

definition clean_value :: "string \<Rightarrow> pyval \<Rightarrow> py_error + cleaned" where
  "clean_value key v =
     (case truth_value (pd_isna v) of
        Inl e \<Rightarrow> Inl e
      | Inr True \<Rightarrow> Inr CNone
      | Inr False \<Rightarrow>
          if key \<in> set int_fields \<and> v \<noteq> PyNone then clean_int v
          else if key \<in> set array_fields \<and> v \<noteq> PyNone then Inr (clean_array v)
          else if key = ''company_rating'' \<and> v \<noteq> PyNone then clean_rating v
          else Inr (if v \<noteq> PyNone then CStr (py_str v) else CNone))"

text \<open>
  A record is a Python dict, kept as an association list in insertion order:
  \<open>AList.update\<close> overwrites a key in place and appends a new one, as assignment to a
  dict does.
\<close>

type_synonym raw_record = "(string \<times> pyval) list"
type_synonym job_row = "(string \<times> cleaned) list"

fun clean_items :: "raw_record \<Rightarrow> job_row \<Rightarrow> py_error + job_row" where
  "clean_items [] cleaned_job = Inr cleaned_job"
| "clean_items ((key, v) # kvs) cleaned_job =
     (case clean_value key v of
        Inl e \<Rightarrow> Inl e
      | Inr c \<Rightarrow> clean_items kvs (AList.update key c cleaned_job))"

text \<open>One record, stamped with \<open>ts\<close>, the text of \<^verbatim>\<open>datetime.now().isoformat()\<close>.\<close>

definition clean_job :: "string \<Rightarrow> raw_record \<Rightarrow> py_error + job_row" where
  "clean_job ts job =
     (case clean_items job [] of
        Inl e \<Rightarrow> Inl e
      | Inr cleaned_job \<Rightarrow> Inr (AList.update ''scraped_at'' (CStr ts) cleaned_job))"

text \<open>
  The loop over \<^verbatim>\<open>jobs_list\<close>; \<open>clock i\<close> is what the clock reads for the record at
  position \<open>i\<close>. The first exception ends the loop.
\<close>

fun clean_jobs :: "(nat \<Rightarrow> string) \<Rightarrow> nat \<Rightarrow> raw_record list \<Rightarrow> py_error + job_row list" where
  "clean_jobs clock i [] = Inr []"
| "clean_jobs clock i (job # jobs) =
     (case clean_job (clock i) job of
        Inl e \<Rightarrow> Inl e
      | Inr c \<Rightarrow>
          (case clean_jobs clock (Suc i) jobs of
             Inl e \<Rightarrow> Inl e
           | Inr cs \<Rightarrow> Inr (c # cs)))"

section \<open>The scraped table\<close>

text \<open>
  A pandas \<^verbatim>\<open>DataFrame\<close>: its column labels and its rows. \<^verbatim>\<open>df.empty\<close> holds when
  either axis has length zero, \<^verbatim>\<open>len(df)\<close> counts the rows, and
  \<^verbatim>\<open>df.to_dict('records')\<close> gives one dict for each row (of a repeated label the last
  cell stays).
\<close>

record dataframe =
  columns :: "string list"
  rows :: "pyval list list"

definition pd_DataFrame :: dataframe where
  "pd_DataFrame = \<lparr>columns = [], rows = []\<rparr>"

definition df_empty :: "dataframe \<Rightarrow> bool" where
  "df_empty df = (columns df = [] \<or> rows df = [])"

definition df_len :: "dataframe \<Rightarrow> nat" where
  "df_len df = length (rows df)"

definition to_dict_records :: "dataframe \<Rightarrow> raw_record list" where
  "to_dict_records df =
     map (\<lambda>row. fold (\<lambda>(k, v) d. AList.update k v d) (zip (columns df) row) []) (rows df)"

section \<open>The outside world and what a run does to it\<close>

datatype level = INFO | WARNING | ERROR

datatype message =
    SupabaseOk
  | SupabaseFailed py_error
  | ScrapingFor string
  | Found nat string
  | NoJobsFound string
  | ErrorScraping string py_error
  | NoJobsToInsert
  | InsertedBatch nat
  | FailedBatch py_error
  | ErrorPreparing py_error
  | Starting
  | ErrorProcessing string py_error
  | Completed nat
  | ErrorInTrigger py_error

text \<open>
  What a run does, in order: a log line, a call of the provider for a location, an
  upsert (table, conflict key, rows, and whether the store accepted it), a sleep
  (seconds).
\<close>

datatype event =
    Log level message
  | ScrapeCall string
  | Upsert string string "job_row list" bool
  | Sleep nat

text \<open>
  The collaborators of one run. The provider \<^verbatim>\<open>scrape_jobs\<close> answers a location by
  raising, by \<^verbatim>\<open>None\<close> or by a table. The store's \<^verbatim>\<open>upsert(...).execute()\<close> raises
  or not, which may depend on everything that happened before. The clock gives the text
  of \<^verbatim>\<open>datetime.now().isoformat()\<close> for the record at a position. The environment
  holds the two variables \<^verbatim>\<open>__init__\<close> reads, and \<open>connect\<close> is what
  \<^verbatim>\<open>create_client\<close> and the probing \<^verbatim>\<open>select\<close> do.
\<close>

record world =
  scrape_jobs :: "string \<Rightarrow> py_error + dataframe option"
  upsert_execute :: "event list \<Rightarrow> job_row list \<Rightarrow> py_error option"
  now_isoformat :: "event list \<Rightarrow> nat \<Rightarrow> string"
  supabase_url :: "string option"
  supabase_key :: "string option"
  connect :: "py_error option"

subsection \<open>\<^verbatim>\<open>JobScraper.__init__\<close>\<close>

definition locations :: "string list" where
  "locations =
     [''Bengaluru, IN'', ''Hyderabad, IN'', ''New Delhi, IN'', ''Gurgaon, IN'', ''Pune, IN'',
      ''Mumbai, IN'', ''Chennai, IN'']"

definition falsy :: "string option \<Rightarrow> bool" where
  "falsy v = (v = None \<or> v = Some [])"

definition JobScraper_init :: "world \<Rightarrow> event list \<Rightarrow> (py_error + unit) \<times> event list" where
  "JobScraper_init w tr =
     (if falsy (supabase_url w) \<or> falsy (supabase_key w) then (Inl ValueError, tr)
      else (case connect w of
              Some e \<Rightarrow> (Inl e, tr @ [Log ERROR (SupabaseFailed e)])
            | None \<Rightarrow> (Inr (), tr @ [Log INFO SupabaseOk])))"

subsection \<open>\<^verbatim>\<open>scrape_jobs_for_location\<close>\<close>

text \<open>The \<^verbatim>\<open>try\<close> block: an exception of the provider leaves it.\<close>

definition scrape_try ::
  "world \<Rightarrow> string \<Rightarrow> event list \<Rightarrow> (py_error + dataframe option) \<times> event list" where
  "scrape_try w location tr =
     (let tr1 = tr @ [Log INFO (ScrapingFor location), ScrapeCall location]
      in case scrape_jobs w location of
           Inl e \<Rightarrow> (Inl e, tr1)
         | Inr None \<Rightarrow> (Inr (Some pd_DataFrame), tr1 @ [Log WARNING (NoJobsFound location)])
         | Inr (Some jobs) \<Rightarrow>
             if \<not> df_empty jobs
             then (Inr (Some jobs), tr1 @ [Log INFO (Found (df_len jobs) location)])
             else (Inr (Some pd_DataFrame), tr1 @ [Log WARNING (NoJobsFound location)]))"

text \<open>With its handler \<^verbatim>\<open>except Exception\<close>. The result is an exception, \<^verbatim>\<open>None\<close> or a table.\<close>

definition scrape_jobs_for_location ::
  "world \<Rightarrow> string \<Rightarrow> event list \<Rightarrow> (py_error + dataframe option) \<times> event list" where
  "scrape_jobs_for_location w location tr =
     (case scrape_try w location tr of
        (Inl e, tr') \<Rightarrow> (Inr (Some pd_DataFrame), tr' @ [Log ERROR (ErrorScraping location e)])
      | (Inr r, tr') \<Rightarrow> (Inr r, tr'))"

subsection \<open>\<^verbatim>\<open>insert_jobs_to_supabase\<close>\<close>

definition batch_size :: nat where
  "batch_size = 10"

text \<open>
  \<^verbatim>\<open>for i in range(0, len(cleaned_jobs), batch_size)\<close>, from index \<open>i\<close> on. The sleep
  stands after the upsert inside the inner \<^verbatim>\<open>try\<close>; its handler logs and goes on.
\<close>

function insert_batches :: "world \<Rightarrow> job_row list \<Rightarrow> nat \<Rightarrow> event list \<Rightarrow> event list" where
  "insert_batches w cleaned_jobs i tr =
     (if i < length cleaned_jobs then
        (let batch = take batch_size (drop i cleaned_jobs)
         in case upsert_execute w tr batch of
              None \<Rightarrow>
                insert_batches w cleaned_jobs (i + batch_size)
                  (tr @ [Upsert ''job_listings'' ''id'' batch True,
                         Log INFO (InsertedBatch (length batch)), Sleep 2])
            | Some e \<Rightarrow>
                insert_batches w cleaned_jobs (i + batch_size)
                  (tr @ [Upsert ''job_listings'' ''id'' batch False, Log ERROR (FailedBatch e)]))
      else tr)"
  by pat_completeness auto
termination
  by (relation "measure (\<lambda>(w, cleaned_jobs, i, tr). length cleaned_jobs - i)")
     (auto simp: batch_size_def)

declare insert_batches.simps [simp del]

definition insert_jobs_to_supabase ::
  "world \<Rightarrow> dataframe \<Rightarrow> event list \<Rightarrow> (py_error + unit) \<times> event list" where
  "insert_jobs_to_supabase w jobs_df tr =
     (if df_empty jobs_df then (Inr (), tr @ [Log INFO NoJobsToInsert])
      else (case clean_jobs (now_isoformat w tr) 0 (to_dict_records jobs_df) of
              Inl e \<Rightarrow> (Inr (), tr @ [Log ERROR (ErrorPreparing e)])
            | Inr cleaned_jobs \<Rightarrow> (Inr (), insert_batches w cleaned_jobs 0 tr)))"

subsection \<open>\<^verbatim>\<open>run_scrape\<close>\<close>

text \<open>
  The \<^verbatim>\<open>try\<close> block of one location, yielding the new \<^verbatim>\<open>total_jobs\<close>. Asking
  \<^verbatim>\<open>None\<close> for \<^verbatim>\<open>.empty\<close> would raise \<^verbatim>\<open>AttributeError\<close>.
\<close>

definition process_location ::
  "world \<Rightarrow> string \<Rightarrow> nat \<Rightarrow> event list \<Rightarrow> (py_error + nat) \<times> event list" where
  "process_location w location total_jobs tr =
     (case scrape_jobs_for_location w location tr of
        (Inl e, tr1) \<Rightarrow> (Inl e, tr1)
      | (Inr None, tr1) \<Rightarrow> (Inl AttributeError, tr1)
      | (Inr (Some jobs_df), tr1) \<Rightarrow>
          if \<not> df_empty jobs_df then
            (case insert_jobs_to_supabase w jobs_df tr1 of
               (Inl e, tr2) \<Rightarrow> (Inl e, tr2)
             | (Inr u, tr2) \<Rightarrow> (Inr (total_jobs + df_len jobs_df), tr2 @ [Sleep 10]))
          else (Inr total_jobs, tr1 @ [Sleep 10]))"

text \<open>The loop over the locations, with the handler of each round.\<close>

fun run_locations :: "world \<Rightarrow> string list \<Rightarrow> nat \<Rightarrow> event list \<Rightarrow> nat \<times> event list" where
  "run_locations w [] total_jobs tr = (total_jobs, tr)"
| "run_locations w (location # rest) total_jobs tr =
     (case process_location w location total_jobs tr of
        (Inl e, tr') \<Rightarrow>
          run_locations w rest total_jobs (tr' @ [Log ERROR (ErrorProcessing location e)])
      | (Inr total', tr') \<Rightarrow> run_locations w rest total' tr')"

definition run_scrape :: "world \<Rightarrow> event list \<Rightarrow> (py_error + bool) \<times> event list" where
  "run_scrape w tr =
     (case run_locations w locations 0 (tr @ [Log INFO Starting]) of
        (total_jobs, tr') \<Rightarrow> (Inr True, tr' @ [Log INFO (Completed total_jobs)]))"

subsection \<open>The route \<^verbatim>\<open>/scrape-jobs\<close>\<close>

datatype response = Response string nat

definition trigger_scrape :: "world \<Rightarrow> event list \<Rightarrow> response \<times> event list" where
  "trigger_scrape w tr =
     (case JobScraper_init w tr of
        (Inl e, tr1) \<Rightarrow> (Response ''error'' 500, tr1 @ [Log ERROR (ErrorInTrigger e)])
      | (Inr u, tr1) \<Rightarrow>
          (case run_scrape w tr1 of
             (Inl e, tr2) \<Rightarrow> (Response ''error'' 500, tr2 @ [Log ERROR (ErrorInTrigger e)])
           | (Inr success, tr2) \<Rightarrow>
               if success then (Response ''success'' 200, tr2)
               else (Response ''error'' 500, tr2)))"

section \<open>Reading a trace\<close>

fun scrape_calls :: "event list \<Rightarrow> string list" where
  "scrape_calls [] = []"
| "scrape_calls (ScrapeCall location # tr) = location # scrape_calls tr"
| "scrape_calls (ev # tr) = scrape_calls tr"

fun upsert_batches :: "event list \<Rightarrow> job_row list list" where
  "upsert_batches [] = []"
| "upsert_batches (Upsert t k batch ok # tr) = batch # upsert_batches tr"
| "upsert_batches (ev # tr) = upsert_batches tr"

fun accepted_upserts :: "event list \<Rightarrow> nat" where
  "accepted_upserts [] = 0"
| "accepted_upserts (Upsert t k batch ok # tr) = (if ok then 1 else 0) + accepted_upserts tr"
| "accepted_upserts (ev # tr) = accepted_upserts tr"

fun sleeps :: "event list \<Rightarrow> nat list" where
  "sleeps [] = []"
| "sleeps (Sleep n # tr) = n # sleeps tr"
| "sleeps (ev # tr) = sleeps tr"

text \<open>What the writer does for one chunk, given what the store answered.\<close>

definition chunk_events :: "job_row list \<Rightarrow> py_error option \<Rightarrow> event list" where
  "chunk_events batch outcome =
     (case outcome of
        None \<Rightarrow>
          [Upsert ''job_listings'' ''id'' batch True, Log INFO (InsertedBatch (length batch)),
           Sleep 2]
      | Some e \<Rightarrow> [Upsert ''job_listings'' ''id'' batch False, Log ERROR (FailedBatch e)])"

text \<open>The number of records a location contributes to \<^verbatim>\<open>total_jobs\<close>.\<close>

definition fetched_count :: "world \<Rightarrow> string \<Rightarrow> nat" where
  "fetched_count w location =
     (case scrape_jobs w location of
        Inl e \<Rightarrow> 0
      | Inr None \<Rightarrow> 0
      | Inr (Some jobs) \<Rightarrow> if df_empty jobs then 0 else df_len jobs)"

section \<open>Concrete tables and worlds\<close>

definition one_job :: dataframe where
  "one_job = \<lparr>columns = [''id'', ''title''], rows = [[PyStr ''li-1'', PyStr ''Product Manager'']]\<rparr>"

definition two_jobs :: dataframe where
  "two_jobs =
     \<lparr>columns = [''id'', ''skills''],
      rows = [[PyStr ''li-1'', PyStr ''python''], [PyStr ''li-2'', PyList [''python'', ''sql'']]]\<rparr>"

definition jobs23 :: dataframe where
  "jobs23 = \<lparr>columns = [''id''], rows = replicate 23 [PyStr ''li-1'']\<rparr>"

text \<open>
  A world whose provider finds one job in Bengaluru and nothing elsewhere, and whose store
  accepts every upsert.
\<close>

definition accepting_world :: world where
  "accepting_world =
     \<lparr>scrape_jobs = (\<lambda>location. if location = ''Bengaluru, IN'' then Inr (Some one_job)
                                 else Inr None),
      upsert_execute = (\<lambda>tr batch. None),
      now_isoformat = (\<lambda>tr i. ''2025-01-01T00:00:00''),
      supabase_url = Some ''https://db.example'',
      supabase_key = Some ''key'',
      connect = None\<rparr>"

text \<open>The same world with a store that rejects every upsert.\<close>

definition rejecting_world :: world where
  "rejecting_world =
     accepting_world\<lparr>upsert_execute := (\<lambda>tr batch. Some (OtherException ''APIError''))\<rparr>"

text \<open>The same world with a provider that raises for every location.\<close>

definition raising_world :: world where
  "raising_world =
     accepting_world\<lparr>scrape_jobs := (\<lambda>location. Inl (OtherException ''ConnectionError''))\<rparr>"

text \<open>
  The same world with a store that accepts an upsert as long as it has accepted none, and
  rejects every later one.
\<close>

definition flaky_world :: world where
  "flaky_world =
     accepting_world\<lparr>upsert_execute :=
       (\<lambda>tr batch. if accepted_upserts tr = 0 then None
                    else Some (OtherException ''APIError''))\<rparr>"

section \<open>Facts about traces and the loops\<close>

lemma scrape_calls_append: "scrape_calls (a @ b) = scrape_calls a @ scrape_calls b"
  by (induction a rule: scrape_calls.induct) simp_all

lemma upsert_batches_append: "upsert_batches (a @ b) = upsert_batches a @ upsert_batches b"
  by (induction a rule: upsert_batches.induct) simp_all

lemma accepted_upserts_append: "accepted_upserts (a @ b) = accepted_upserts a + accepted_upserts b"
  by (induction a rule: accepted_upserts.induct) simp_all

lemma sleeps_append: "sleeps (a @ b) = sleeps a @ sleeps b"
  by (induction a rule: sleeps.induct) simp_all

lemma scrape_result:
  "fst (scrape_jobs_for_location w location tr) =
     Inr (Some (case scrape_jobs w location of
                  Inl e \<Rightarrow> pd_DataFrame
                | Inr None \<Rightarrow> pd_DataFrame
                | Inr (Some jobs) \<Rightarrow> if df_empty jobs then pd_DataFrame else jobs))"
  by (simp add: scrape_jobs_for_location_def scrape_try_def Let_def
      split: sum.splits option.splits)

lemma scrape_trace:
  "\<exists>l m. snd (scrape_jobs_for_location w location tr) =
     tr @ [Log INFO (ScrapingFor location), ScrapeCall location, Log l m]"
  by (simp add: scrape_jobs_for_location_def scrape_try_def Let_def
      split: sum.splits option.splits)

lemma insert_batches_from:
  "\<exists>outs. length outs = (length cs + 9) div 10 - k \<and>
     insert_batches w cs (10 * k) tr =
       tr @ concat (map2 (\<lambda>j out. chunk_events (take 10 (drop (10 * j) cs)) out)
                      [k ..< (length cs + 9) div 10] outs)"
proof (induction "(length cs + 9) div 10 - k" arbitrary: k tr)
  case 0
  then have "\<not> 10 * k < length cs" by arith
  then have "insert_batches w cs (10 * k) tr = tr"
    by (subst insert_batches.simps) simp
  with 0 show ?case by simp
next
  case (Suc n)
  let ?m = "(length cs + 9) div 10"
  let ?batch = "take 10 (drop (10 * k) cs)"
  from Suc.hyps(2) have km: "k < ?m" and n: "n = ?m - Suc k" by arith+
  then have lt: "10 * k < length cs" by arith
  define out where "out = upsert_execute w tr ?batch"
  define tr' where "tr' = tr @ chunk_events ?batch out"
  have unf: "insert_batches w cs (10 * k) tr = insert_batches w cs (10 * Suc k) tr'"
    using lt
    by (subst insert_batches.simps)
       (simp add: tr'_def out_def chunk_events_def batch_size_def add.commute
             split: option.splits)
  from Suc.hyps(1) [OF n, of tr'] obtain outs where o: "length outs = ?m - Suc k"
    and r: "insert_batches w cs (10 * Suc k) tr' =
       tr' @ concat (map2 (\<lambda>j out. chunk_events (take 10 (drop (10 * j) cs)) out)
                      [Suc k ..< ?m] outs)" by blast
  have "length (out # outs) = ?m - k" using o km by simp
  moreover have "insert_batches w cs (10 * k) tr =
       tr @ concat (map2 (\<lambda>j out. chunk_events (take 10 (drop (10 * j) cs)) out)
                      [k ..< ?m] (out # outs))"
    using unf r km by (simp add: upt_conv_Cons tr'_def)
  ultimately show ?case by blast
qed

lemma insert_never_raises: "fst (insert_jobs_to_supabase w jobs_df tr) = Inr ()"
  by (simp add: insert_jobs_to_supabase_def split: sum.splits)

lemma insert_extends: "\<exists>new. snd (insert_jobs_to_supabase w jobs_df tr) = tr @ new"
  using insert_batches_from [of _ 0 w tr]
  by (auto simp: insert_jobs_to_supabase_def split: sum.splits)

lemma process_location_result:
  "fst (process_location w location total_jobs tr) =
     Inr (total_jobs +
       (case scrape_jobs w location of
          Inl e \<Rightarrow> 0
        | Inr None \<Rightarrow> 0
        | Inr (Some jobs) \<Rightarrow> if df_empty jobs then 0 else df_len jobs))"
proof -
  obtain r tr1 where s: "scrape_jobs_for_location w location tr = (r, tr1)"
    by (cases "scrape_jobs_for_location w location tr")
  from scrape_result [of w location tr] s
  have r: "r = Inr (Some (case scrape_jobs w location of
                  Inl e \<Rightarrow> pd_DataFrame
                | Inr None \<Rightarrow> pd_DataFrame
                | Inr (Some jobs) \<Rightarrow> if df_empty jobs then pd_DataFrame else jobs))"
    by simp
  have e: "df_empty pd_DataFrame" by (simp add: df_empty_def pd_DataFrame_def)
  have ne: "insert_jobs_to_supabase w df tr1 \<noteq> (Inl x, t)" for df x t
    using insert_never_raises [of w df tr1] by auto
  show ?thesis
    using e
    by (simp add: process_location_def s r ne split: sum.splits option.splits prod.splits)
qed

lemma run_locations_total:
  "fst (run_locations w locs total_jobs tr) =
     total_jobs + sum_list (map (\<lambda>location.
       (case scrape_jobs w location of
          Inl e \<Rightarrow> 0
        | Inr None \<Rightarrow> 0
        | Inr (Some jobs) \<Rightarrow> if df_empty jobs then 0 else df_len jobs)) locs)"
proof (induction locs arbitrary: total_jobs tr)
  case Nil
  show ?case by simp
next
  case (Cons location rest)
  obtain r tr' where p: "process_location w location total_jobs tr = (r, tr')"
    by (cases "process_location w location total_jobs tr")
  with process_location_result [of w location total_jobs tr]
  show ?case by (simp add: Cons.IH)
qed

lemma chunk_events_calls: "scrape_calls (chunk_events b out) = []"
  by (simp add: chunk_events_def split: option.splits)

lemma chunks_calls:
  "scrape_calls (concat (map (\<lambda>(j, out). chunk_events (f j) out) ps)) = []"
  by (induction ps) (auto simp: scrape_calls_append chunk_events_calls)

lemma chunks_batches:
  "upsert_batches (concat (map (\<lambda>(j, out). chunk_events (f j) out) ps)) = map (f \<circ> fst) ps"
  by (induction ps)
     (auto simp: upsert_batches_append chunk_events_def split: option.splits)

lemma chunks_sleeps:
  "sleeps (concat (map (\<lambda>(j, out). chunk_events (f j) out) ps)) =
     replicate (accepted_upserts (concat (map (\<lambda>(j, out). chunk_events (f j) out) ps))) 2"
  by (induction ps)
     (auto simp: sleeps_append accepted_upserts_append chunk_events_def split: option.splits)

lemma insert_calls:
  "scrape_calls (snd (insert_jobs_to_supabase w jobs_df tr)) = scrape_calls tr"
proof (cases "clean_jobs (now_isoformat w tr) 0 (to_dict_records jobs_df)")
  case (Inl e)
  then show ?thesis by (simp add: insert_jobs_to_supabase_def scrape_calls_append)
next
  case (Inr cs)
  from insert_batches_from [of cs 0 w tr] obtain outs where
    "insert_batches w cs 0 tr =
       tr @ concat (map2 (\<lambda>j out. chunk_events (take 10 (drop (10 * j) cs)) out)
                      [0 ..< (length cs + 9) div 10] outs)" by auto
  with Inr show ?thesis
    by (simp add: insert_jobs_to_supabase_def scrape_calls_append chunks_calls)
qed

lemma process_location_calls:
  "scrape_calls (snd (process_location w location total_jobs tr)) =
     scrape_calls tr @ [location]"
proof -
  obtain r tr1 where s: "scrape_jobs_for_location w location tr = (r, tr1)"
    by (cases "scrape_jobs_for_location w location tr")
  from scrape_result [of w location tr] s obtain df where r: "r = Inr (Some df)" by auto
  from scrape_trace [of w location tr] s
  have c: "scrape_calls tr1 = scrape_calls tr @ [location]"
    by (auto simp: scrape_calls_append)
  show ?thesis
  proof (cases "df_empty df")
    case True
    then show ?thesis by (simp add: process_location_def s r c scrape_calls_append)
  next
    case False
    obtain u tr2 where i: "insert_jobs_to_supabase w df tr1 = (u, tr2)"
      by (cases "insert_jobs_to_supabase w df tr1")
    from insert_never_raises [of w df tr1] i have u: "u = Inr ()" by simp
    from insert_calls [of w df tr1] i c
    have "scrape_calls tr2 = scrape_calls tr @ [location]" by simp
    with False show ?thesis
      by (simp add: process_location_def s r i u scrape_calls_append)
  qed
qed

lemma run_locations_calls:
  "scrape_calls (snd (run_locations w locs total_jobs tr)) = scrape_calls tr @ locs"
proof (induction locs arbitrary: total_jobs tr)
  case Nil
  show ?case by simp
next
  case (Cons location rest)
  obtain r tr' where p: "process_location w location total_jobs tr = (r, tr')"
    by (cases "process_location w location total_jobs tr")
  with process_location_calls [of w location total_jobs tr]
  have "scrape_calls tr' = scrape_calls tr @ [location]" by simp
  with p show ?case
    by (cases r) (simp_all add: Cons.IH scrape_calls_append)
qed

lemma process_location_ends:
  "\<exists>new. snd (process_location w location total_jobs tr) = tr @ new @ [Sleep 10]"
proof -
  obtain r tr1 where s: "scrape_jobs_for_location w location tr = (r, tr1)"
    by (cases "scrape_jobs_for_location w location tr")
  from scrape_result [of w location tr] s obtain df where r: "r = Inr (Some df)" by auto
  from scrape_trace [of w location tr] s obtain mid where t: "tr1 = tr @ mid" by auto
  show ?thesis
  proof (cases "df_empty df")
    case True
    then show ?thesis by (simp add: process_location_def s r t)
  next
    case False
    from insert_extends [of w df tr1] obtain new where
      n: "snd (insert_jobs_to_supabase w df tr1) = tr1 @ new" by auto
    obtain u tr2 where i: "insert_jobs_to_supabase w df tr1 = (u, tr2)"
      by (cases "insert_jobs_to_supabase w df tr1")
    from insert_never_raises [of w df tr1] i have u: "u = Inr ()" by simp
    from n i have "tr2 = tr @ mid @ new" by (simp add: t)
    with False show ?thesis by (simp add: process_location_def s r i u)
  qed
qed

lemma clean_jobs_length: "clean_jobs clock i jobs = Inr cs \<Longrightarrow> length cs = length jobs"
  by (induction jobs arbitrary: i cs) (auto split: sum.splits)

lemma batches_cover:
  "k \<le> (length cs + 9) div 10 \<Longrightarrow>
   concat (map (\<lambda>j. take 10 (drop (10 * j) cs)) [k ..< (length cs + 9) div 10]) =
     drop (10 * k) (cs :: 'a list)"
proof (induction "(length cs + 9) div 10 - k" arbitrary: k)
  case 0
  then have "length cs \<le> 10 * k" by arith
  with 0 show ?case by simp
next
  case (Suc n)
  then have km: "k < (length cs + 9) div 10" and n: "n = (length cs + 9) div 10 - Suc k"
    by arith+
  from Suc.hyps(1) [OF n] km
  have "concat (map (\<lambda>j. take 10 (drop (10 * j) cs)) [Suc k ..< (length cs + 9) div 10]) =
     drop (10 * Suc k) cs" by simp
  moreover have "take 10 (drop (10 * k) cs) @ drop (10 * Suc k) cs = drop (10 * k) cs"
    by (metis add.commute append_take_drop_id drop_drop mult_Suc_right)
  ultimately show ?case using km by (simp add: upt_conv_Cons)
qed

lemma insert_batches_step:
  "i < length cs \<Longrightarrow>
   insert_batches w cs i tr =
     insert_batches w cs (i + 10)
       (tr @ chunk_events (take 10 (drop i cs)) (upsert_execute w tr (take 10 (drop i cs))))"
  by (subst insert_batches.simps)
     (simp add: chunk_events_def batch_size_def split: option.splits)

lemma insert_batches_stop: "length cs \<le> i \<Longrightarrow> insert_batches w cs i tr = tr"
  by (subst insert_batches.simps) simp

lemma insert_batches_outcomes:
  "\<exists>outs. length outs = (length cs + 9) div 10 - k \<and>
     insert_batches w cs (10 * k) tr =
       tr @ concat (map2 (\<lambda>j out. chunk_events (take 10 (drop (10 * j) cs)) out)
                      [k ..< (length cs + 9) div 10] outs) \<and>
     (\<forall>j < (length cs + 9) div 10 - k.
        outs ! j =
          upsert_execute w
            (tr @ concat (map2 (\<lambda>i out. chunk_events (take 10 (drop (10 * i) cs)) out)
                            [k ..< k + j] outs))
            (take 10 (drop (10 * (k + j)) cs)))"
proof (induction "(length cs + 9) div 10 - k" arbitrary: k tr)
  case 0
  then have "length cs \<le> 10 * k" by arith
  then have "insert_batches w cs (10 * k) tr = tr" by (rule insert_batches_stop)
  with 0 show ?case by simp
next
  case (Suc n)
  let ?m = "(length cs + 9) div 10"
  let ?F = "\<lambda>j out. chunk_events (take 10 (drop (10 * j) cs)) out"
  from Suc.hyps(2) have km: "k < ?m" and n: "n = ?m - Suc k" by arith+
  then have lt: "10 * k < length cs" by arith
  define out where "out = upsert_execute w tr (take 10 (drop (10 * k) cs))"
  define tr' where "tr' = tr @ ?F k out"
  have unf: "insert_batches w cs (10 * k) tr = insert_batches w cs (10 * Suc k) tr'"
    using insert_batches_step [OF lt, of w tr] by (simp add: tr'_def out_def add.commute)
  from Suc.hyps(1) [OF n, of tr'] obtain outs where o: "length outs = ?m - Suc k"
    and r: "insert_batches w cs (10 * Suc k) tr' =
       tr' @ concat (map2 ?F [Suc k ..< ?m] outs)"
    and t: "\<forall>j < ?m - Suc k.
        outs ! j =
          upsert_execute w (tr' @ concat (map2 ?F [Suc k ..< Suc k + j] outs))
            (take 10 (drop (10 * (Suc k + j)) cs))" by blast
  have 1: "length (out # outs) = ?m - k" using o km by simp
  have 2: "insert_batches w cs (10 * k) tr = tr @ concat (map2 ?F [k ..< ?m] (out # outs))"
    using unf r km by (simp add: upt_conv_Cons tr'_def)
  have 3: "(out # outs) ! j =
          upsert_execute w (tr @ concat (map2 ?F [k ..< k + j] (out # outs)))
            (take 10 (drop (10 * (k + j)) cs))" if j: "j < ?m - k" for j
  proof (cases j)
    case 0
    then show ?thesis by (simp add: out_def)
  next
    case (Suc i)
    with j have "i < ?m - Suc k" by arith
    with t have "outs ! i =
          upsert_execute w (tr' @ concat (map2 ?F [Suc k ..< Suc k + i] outs))
            (take 10 (drop (10 * (Suc k + i)) cs))" by blast
    moreover have "[k ..< k + Suc i] = k # [Suc k ..< Suc k + i]"
      by (simp add: upt_conv_Cons)
    ultimately show ?thesis by (simp add: Suc tr'_def)
  qed
  from 1 2 3 show ?case by blast
qed

lemma clean_jobs_first_error:
  "i < length jobs \<Longrightarrow> clean_job (clock (k + i)) (jobs ! i) = Inl e \<Longrightarrow>
   \<exists>j e'. j \<le> i \<and> clean_job (clock (k + j)) (jobs ! j) = Inl e' \<and>
          (\<forall>l < j. \<exists>c. clean_job (clock (k + l)) (jobs ! l) = Inr c) \<and>
          clean_jobs clock k jobs = Inl e'"
proof (induction jobs arbitrary: k i)
  case Nil
  then show ?case by simp
next
  case (Cons job jobs)
  show ?case
  proof (cases "clean_job (clock k) job")
    case (Inl e0)
    then have "0 \<le> i \<and> clean_job (clock (k + 0)) ((job # jobs) ! 0) = Inl e0 \<and>
        (\<forall>l < (0::nat). \<exists>c. clean_job (clock (k + l)) ((job # jobs) ! l) = Inr c) \<and>
        clean_jobs clock k (job # jobs) = Inl e0" by simp
    then show ?thesis by blast
  next
    case (Inr c)
    with Cons.prems obtain i' where i: "i = Suc i'" by (cases i) auto
    with Cons.prems have "i' < length jobs"
      and "clean_job (clock (Suc k + i')) (jobs ! i') = Inl e" by simp_all
    from Cons.IH [OF this] obtain j e' where j: "j \<le> i'"
      and f: "clean_job (clock (Suc k + j)) (jobs ! j) = Inl e'"
      and p: "\<forall>l < j. \<exists>c. clean_job (clock (Suc k + l)) (jobs ! l) = Inr c"
      and r: "clean_jobs clock (Suc k) jobs = Inl e'" by blast
    have "\<exists>c. clean_job (clock (k + l)) ((job # jobs) ! l) = Inr c" if "l < Suc j" for l
    proof (cases l)
      case 0
      with Inr show ?thesis by simp
    next
      case (Suc l')
      with that have "l' < j" by simp
      with p have "\<exists>c. clean_job (clock (Suc k + l')) (jobs ! l') = Inr c" by blast
      with Suc show ?thesis by simp
    qed
    with Inr i j f r
    have "Suc j \<le> i \<and> clean_job (clock (k + Suc j)) ((job # jobs) ! Suc j) = Inl e' \<and>
        (\<forall>l < Suc j. \<exists>c. clean_job (clock (k + l)) ((job # jobs) ! l) = Inr c) \<and>
        clean_jobs clock k (job # jobs) = Inl e'" by simp
    then show ?thesis by blast
  qed
qed

lemma empty_table_cleans:
  "df_empty jobs_df \<Longrightarrow> i < length (to_dict_records jobs_df) \<Longrightarrow>
   clean_job ts (to_dict_records jobs_df ! i) \<noteq> Inl e"
  by (auto simp: df_empty_def to_dict_records_def clean_job_def)

lemma clean_jobs_each:
  "clean_jobs clock k jobs = Inr cs \<Longrightarrow> i < length jobs \<Longrightarrow>
   clean_job (clock (k + i)) (jobs ! i) = Inr (cs ! i)"
proof (induction jobs arbitrary: k i cs)
  case Nil
  then show ?case by simp
next
  case (Cons job jobs)
  from Cons.prems(1) obtain c cs' where c: "clean_job (clock k) job = Inr c"
    and cs': "clean_jobs clock (Suc k) jobs = Inr cs'" and cs: "cs = c # cs'"
    by (auto split: sum.splits)
  show ?case
  proof (cases i)
    case 0
    with c cs show ?thesis by simp
  next
    case (Suc i')
    with Cons.prems(2) have "i' < length jobs" by simp
    from Cons.IH [OF cs' this] show ?thesis by (simp add: Suc cs)
  qed
qed

lemma clean_jobs_all:
  "\<forall>i < length jobs. \<exists>c. clean_job (clock (k + i)) (jobs ! i) = Inr c \<Longrightarrow>
   \<exists>cs. clean_jobs clock k jobs = Inr cs"
proof (induction jobs arbitrary: k)
  case Nil
  show ?case by simp
next
  case (Cons job jobs)
  from Cons.prems [rule_format, of 0] obtain c where c: "clean_job (clock k) job = Inr c"
    by auto
  have "\<forall>i < length jobs. \<exists>c. clean_job (clock (Suc k + i)) (jobs ! i) = Inr c"
  proof (intro allI impI)
    fix i assume "i < length jobs"
    then have "Suc i < length (job # jobs)" by simp
    from Cons.prems [rule_format, OF this] show "\<exists>c. clean_job (clock (Suc k + i)) (jobs ! i) = Inr c"
      by simp
  qed
  from Cons.IH [OF this] obtain cs where "clean_jobs clock (Suc k) jobs = Inr cs" by blast
  with c show ?case by simp
qed

section \<open>The record normalizer\<close>

text \<open>
  C1. The normalizer is to be total: no record makes it raise, and a malformed field
  becomes null without aborting the record. The code does not keep this: a list cell with
  two elements makes \<^verbatim>\<open>if pd.isna(value)\<close> raise \<^verbatim>\<open>ValueError\<close>, and an infinite
  count makes \<^verbatim>\<open>int(float(...))\<close> raise \<^verbatim>\<open>OverflowError\<close>, which the inner handler
  does not catch. Either ends the cleaning of the record, although its \<open>id\<close> is present.
\<close>

theorem normalizer_aborts_record:
  "clean_job ts [(''id'', PyStr ''li-1''), (''skills'', PyList [''python'', ''sql''])] =
     Inl ValueError \<and>
   clean_job ts [(''id'', PyStr ''li-1''), (''min_amount'', PyScalar ''inf'')] =
     Inl OverflowError"
  by code_simp

text \<open>
  C2. A count-like field is parsed as a float and truncated, and any exception of the
  parse is to give null. The handler names \<^verbatim>\<open>ValueError\<close> and \<^verbatim>\<open>TypeError\<close> only: for
  the text \<^verbatim>\<open>inf\<close>, and for a float infinity, the \<^verbatim>\<open>OverflowError\<close> of \<^verbatim>\<open>int\<close>
  leaves the field's \<^verbatim>\<open>try\<close>.
\<close>

theorem count_overflow_escapes:
  "clean_value ''company_reviews_count'' (PyStr ''inf'') = Inl OverflowError \<and>
   clean_value ''min_amount'' (PyScalar ''inf'') = Inl OverflowError"
  by code_simp

text \<open>
  C3. A list-like field is to pass a list through unchanged. A list of two strings never
  reaches the branch that would keep it: the test \<^verbatim>\<open>if pd.isna(value)\<close> before it raises
  \<^verbatim>\<open>ValueError\<close>.
\<close>

theorem list_of_two_raises:
  "clean_value ''skills'' (PyList [''python'', ''sql'']) = Inl ValueError"
  by (simp add: clean_value_def)

text \<open>
  What C2 and C3 say of the other inputs holds: \<^verbatim>\<open>"42.0"\<close> becomes 42, a text that is
  no number becomes null, a comma-separated text is split and trimmed, \<^verbatim>\<open>None\<close> becomes
  null, and a list of one string is kept.
\<close>

lemma coercion_examples:
  "clean_value ''company_reviews_count'' (PyStr ''42.0'') = Inr (CInt 42)"
  "clean_value ''company_reviews_count'' (PyStr ''not-a-number'') = Inr CNone"
  "clean_value ''skills'' (PyStr ''python, sql ,  ml'') = Inr (CList [''python'', ''sql'', ''ml''])"
  "clean_value ''skills'' PyNone = Inr CNone"
  "clean_value ''skills'' (PyList [''python'']) = Inr (CList [''python''])"
  by code_simp+

section \<open>The partition fetcher\<close>

text \<open>
  C6. \<^verbatim>\<open>scrape_jobs_for_location\<close> never passes an exception on: it always returns a
  table, and when the provider raises, returns \<^verbatim>\<open>None\<close> or returns an empty table, the
  table returned is the empty \<^verbatim>\<open>pd.DataFrame()\<close>.
\<close>

theorem fetch_never_raises:
  "(\<exists>df. fst (scrape_jobs_for_location w location tr) = Inr (Some df)) \<and>
   ((\<exists>e. scrape_jobs w location = Inl e) \<or> scrape_jobs w location = Inr None \<or>
    (\<exists>jobs. scrape_jobs w location = Inr (Some jobs) \<and> df_empty jobs)
    \<longrightarrow> fst (scrape_jobs_for_location w location tr) = Inr (Some pd_DataFrame))"
  by (auto simp: scrape_result)

text \<open>A provider that raises: the fetcher answers with the empty table.\<close>

theorem fetch_never_raises_witness:
  "(\<exists>e. scrape_jobs raising_world ''Pune, IN'' = Inl e) \<and>
   fst (scrape_jobs_for_location raising_world ''Pune, IN'' []) = Inr (Some pd_DataFrame) \<and>
   scrape_jobs accepting_world ''Pune, IN'' = Inr None \<and>
   fst (scrape_jobs_for_location accepting_world ''Pune, IN'' []) = Inr (Some pd_DataFrame)"
  using fetch_never_raises [of raising_world "''Pune, IN''" "[]"]
        fetch_never_raises [of accepting_world "''Pune, IN''" "[]"]
  by (simp add: raising_world_def accepting_world_def)

text \<open>
  C9. The fetcher's result is never \<^verbatim>\<open>None\<close>: it is a table, empty exactly when the
  provider did not return a table with rows, so that \<^verbatim>\<open>jobs_df.empty\<close> in
  \<^verbatim>\<open>run_scrape\<close> never fails and the round of a location always yields a total.
\<close>

theorem fetch_result_never_none:
  "\<exists>df. fst (scrape_jobs_for_location w location tr) = Inr (Some df) \<and>
     df_empty df = (\<not> (\<exists>jobs. scrape_jobs w location = Inr (Some jobs) \<and> \<not> df_empty jobs)) \<and>
     (\<exists>n. fst (process_location w location total_jobs tr) = Inr n)"
  by (auto simp: scrape_result process_location_result df_empty_def pd_DataFrame_def
      split: sum.splits option.splits)

section \<open>The batch writer\<close>

text \<open>
  C10. All records are cleaned before the first upsert. When cleaning any one record
  raises, whatever its position in the table, \<^verbatim>\<open>insert_jobs_to_supabase\<close> logs the error
  of the first record that raises and returns normally without any upsert, also of the
  records that did clean. When every record cleans, the cleaned list holds the cleaned
  form of each record in order; and the upserted chunks together are exactly the cleaned
  records.
\<close>

theorem cleaning_error_writes_nothing:
  "(i < length (to_dict_records jobs_df) \<and>
    clean_job (now_isoformat w tr i) (to_dict_records jobs_df ! i) = Inl e \<longrightarrow>
      (\<exists>j e'. j \<le> i \<and>
         clean_job (now_isoformat w tr j) (to_dict_records jobs_df ! j) = Inl e' \<and>
         (\<forall>l < j. \<exists>c. clean_job (now_isoformat w tr l) (to_dict_records jobs_df ! l) = Inr c) \<and>
         insert_jobs_to_supabase w jobs_df tr =
           (Inr (), tr @ [Log ERROR (ErrorPreparing e')]))) \<and>
   ((\<forall>i < length (to_dict_records jobs_df).
       \<exists>c. clean_job (now_isoformat w tr i) (to_dict_records jobs_df ! i) = Inr c) \<longrightarrow>
      (\<exists>cs. clean_jobs (now_isoformat w tr) 0 (to_dict_records jobs_df) = Inr cs \<and>
         length cs = length (to_dict_records jobs_df) \<and>
         (\<forall>i < length (to_dict_records jobs_df).
            clean_job (now_isoformat w tr i) (to_dict_records jobs_df ! i) =
              Inr (cs ! i)))) \<and>
   (\<not> df_empty jobs_df \<and>
    clean_jobs (now_isoformat w tr) 0 (to_dict_records jobs_df) = Inr cs \<longrightarrow>
      (\<exists>new. insert_jobs_to_supabase w jobs_df tr = (Inr (), tr @ new) \<and>
             concat (upsert_batches new) = cs))"
proof (intro conjI impI)
  assume "i < length (to_dict_records jobs_df) \<and>
          clean_job (now_isoformat w tr i) (to_dict_records jobs_df ! i) = Inl e"
  then have il: "i < length (to_dict_records jobs_df)"
    and ie: "clean_job (now_isoformat w tr (0 + i)) (to_dict_records jobs_df ! i) = Inl e"
    by simp_all
  from il ie empty_table_cleans [of jobs_df i "now_isoformat w tr i" e]
  have ne: "\<not> df_empty jobs_df" by auto
  from clean_jobs_first_error [where clock = "now_isoformat w tr" and k = 0, OF il ie]
  obtain j e' where "j \<le> i"
    and "clean_job (now_isoformat w tr j) (to_dict_records jobs_df ! j) = Inl e'"
    and "\<forall>l < j. \<exists>c. clean_job (now_isoformat w tr l) (to_dict_records jobs_df ! l) = Inr c"
    and "clean_jobs (now_isoformat w tr) 0 (to_dict_records jobs_df) = Inl e'" by auto
  with ne have "j \<le> i \<and>
      clean_job (now_isoformat w tr j) (to_dict_records jobs_df ! j) = Inl e' \<and>
      (\<forall>l < j. \<exists>c. clean_job (now_isoformat w tr l) (to_dict_records jobs_df ! l) = Inr c) \<and>
      insert_jobs_to_supabase w jobs_df tr = (Inr (), tr @ [Log ERROR (ErrorPreparing e')])"
    by (simp add: insert_jobs_to_supabase_def)
  then show "\<exists>j e'. j \<le> i \<and>
         clean_job (now_isoformat w tr j) (to_dict_records jobs_df ! j) = Inl e' \<and>
         (\<forall>l < j. \<exists>c. clean_job (now_isoformat w tr l) (to_dict_records jobs_df ! l) = Inr c) \<and>
         insert_jobs_to_supabase w jobs_df tr =
           (Inr (), tr @ [Log ERROR (ErrorPreparing e')])" by blast
next
  assume a: "\<forall>i < length (to_dict_records jobs_df).
             \<exists>c. clean_job (now_isoformat w tr i) (to_dict_records jobs_df ! i) = Inr c"
  from clean_jobs_all [of "to_dict_records jobs_df" "now_isoformat w tr" 0] a
  obtain cs' where c: "clean_jobs (now_isoformat w tr) 0 (to_dict_records jobs_df) = Inr cs'"
    by auto
  from clean_jobs_each [OF c] clean_jobs_length [OF c] c
  show "\<exists>cs. clean_jobs (now_isoformat w tr) 0 (to_dict_records jobs_df) = Inr cs \<and>
         length cs = length (to_dict_records jobs_df) \<and>
         (\<forall>i < length (to_dict_records jobs_df).
            clean_job (now_isoformat w tr i) (to_dict_records jobs_df ! i) =
              Inr (cs ! i))" by auto
next
  assume "\<not> df_empty jobs_df \<and>
    clean_jobs (now_isoformat w tr) 0 (to_dict_records jobs_df) = Inr cs"
  then have ne: "\<not> df_empty jobs_df"
    and c: "clean_jobs (now_isoformat w tr) 0 (to_dict_records jobs_df) = Inr cs" by simp_all
  let ?m = "(length cs + 9) div 10"
  from insert_batches_from [of cs 0 w tr] obtain outs where
    l: "length outs = ?m" and
    i: "insert_batches w cs 0 tr =
       tr @ concat (map2 (\<lambda>j out. chunk_events (take 10 (drop (10 * j) cs)) out)
                      [0 ..< ?m] outs)" by auto
  let ?new = "concat (map2 (\<lambda>j out. chunk_events (take 10 (drop (10 * j) cs)) out)
                      [0 ..< ?m] outs)"
  have "upsert_batches ?new = map (\<lambda>j. take 10 (drop (10 * j) cs)) [0 ..< ?m]"
    using l by (simp add: chunks_batches map_fst_zip flip: map_map)
  then have "concat (upsert_batches ?new) = cs"
    using batches_cover [of 0 cs] by simp
  with ne c i show "\<exists>new. insert_jobs_to_supabase w jobs_df tr = (Inr (), tr @ new) \<and>
      concat (upsert_batches new) = cs"
    by (simp add: insert_jobs_to_supabase_def)
qed

text \<open>
  A table of two records whose second record holds a list of two skills: the first record
  cleans, the second raises, and nothing is written. A table of one clean record is written.
\<close>

theorem cleaning_error_writes_nothing_witness:
  "\<not> df_empty two_jobs \<and>
   1 < length (to_dict_records two_jobs) \<and>
   clean_job (now_isoformat accepting_world [] 0) (to_dict_records two_jobs ! 0) =
     Inr [(''id'', CStr ''li-1''), (''skills'', CList [''python'']),
          (''scraped_at'', CStr ''2025-01-01T00:00:00'')] \<and>
   clean_job (now_isoformat accepting_world [] 1) (to_dict_records two_jobs ! 1) =
     Inl ValueError \<and>
   insert_jobs_to_supabase accepting_world two_jobs [] =
     (Inr (), [Log ERROR (ErrorPreparing ValueError)]) \<and>
   \<not> df_empty one_job \<and>
   (\<exists>cs new. clean_jobs (now_isoformat accepting_world []) 0 (to_dict_records one_job) = Inr cs \<and>
      insert_jobs_to_supabase accepting_world one_job [] = (Inr (), new) \<and>
      concat (upsert_batches new) = cs)"
proof -
  let ?cs = "[[(''id'', CStr ''li-1''), (''title'', CStr ''Product Manager''),
               (''scraped_at'', CStr ''2025-01-01T00:00:00'')]]"
  have d: "\<not> df_empty two_jobs" by (simp add: df_empty_def two_jobs_def)
  have n: "1 < length (to_dict_records two_jobs)" by (simp add: to_dict_records_def two_jobs_def)
  have c0: "clean_job (now_isoformat accepting_world [] 0) (to_dict_records two_jobs ! 0) =
     Inr [(''id'', CStr ''li-1''), (''skills'', CList [''python'']),
          (''scraped_at'', CStr ''2025-01-01T00:00:00'')]"
    by code_simp
  have c1: "clean_job (now_isoformat accepting_world [] 1) (to_dict_records two_jobs ! 1) =
     Inl ValueError"
    by code_simp
  from cleaning_error_writes_nothing [of 1 two_jobs accepting_world "[]" ValueError] n c1
  obtain j e' where j: "j \<le> 1"
    and f: "clean_job (now_isoformat accepting_world [] j) (to_dict_records two_jobs ! j) = Inl e'"
    and r: "insert_jobs_to_supabase accepting_world two_jobs [] =
                 (Inr (), [] @ [Log ERROR (ErrorPreparing e')])" by blast
  from j have "j = 0 \<or> j = 1" by arith
  with f c0 c1 have "e' = ValueError" by auto
  with r have w: "insert_jobs_to_supabase accepting_world two_jobs [] =
     (Inr (), [Log ERROR (ErrorPreparing ValueError)])" by simp
  have d1: "\<not> df_empty one_job" by (simp add: df_empty_def one_job_def)
  have k1: "clean_jobs (now_isoformat accepting_world []) 0 (to_dict_records one_job) = Inr ?cs"
    by code_simp
  from cleaning_error_writes_nothing [of _ one_job accepting_world "[]" _ ?cs] d1 k1
  have "\<exists>new. insert_jobs_to_supabase accepting_world one_job [] = (Inr (), new) \<and>
      concat (upsert_batches new) = ?cs" by simp
  with d n c0 c1 w d1 k1 show ?thesis by blast
qed

text \<open>
  C7, as the code has it. For an empty table the writer returns at once with no upsert.
  Records that clean without an exception are cut into chunks of 10 in their order, as
  many records as the table has rows; each chunk is upserted once, keyed on \<open>id\<close>, whatever
  the store answered before. The answers are \<open>outs\<close>: the answer to a chunk is that of
  \<^verbatim>\<open>execute\<close> on the trace up to this chunk, and it decides what follows the upsert
  (\<open>chunk_events\<close>): the log line and a pause of 2 seconds when the store accepts, the
  error line alone when it fails. For 23 records there are three upserts, of 10, 10 and 3
  records.
\<close>

theorem chunks_of_ten:
  "(df_empty jobs_df \<longrightarrow>
      insert_jobs_to_supabase w jobs_df tr = (Inr (), tr @ [Log INFO NoJobsToInsert])) \<and>
   (\<not> df_empty jobs_df \<and>
    clean_jobs (now_isoformat w tr) 0 (to_dict_records jobs_df) = Inr cs \<longrightarrow>
      (\<exists>outs. length outs = (length cs + 9) div 10 \<and>
         insert_jobs_to_supabase w jobs_df tr =
           (Inr (),
            tr @ concat (map2 (\<lambda>j out. chunk_events (take 10 (drop (10 * j) cs)) out)
                           [0 ..< (length cs + 9) div 10] outs)) \<and>
         (\<forall>j < (length cs + 9) div 10.
            outs ! j =
              upsert_execute w
                (tr @ concat (map2 (\<lambda>i out. chunk_events (take 10 (drop (10 * i) cs)) out)
                                [0 ..< j] outs))
                (take 10 (drop (10 * j) cs)))) \<and>
      upsert_batches (snd (insert_jobs_to_supabase w jobs_df tr)) =
        upsert_batches tr @
        map (\<lambda>j. take 10 (drop (10 * j) cs)) [0 ..< (length cs + 9) div 10] \<and>
      length cs = df_len jobs_df) \<and>
   (\<not> df_empty jobs_df \<and> df_len jobs_df = 23 \<and>
    clean_jobs (now_isoformat w tr) 0 (to_dict_records jobs_df) = Inr cs \<longrightarrow>
      (let b1 = take 10 cs; o1 = upsert_execute w tr b1; t1 = tr @ chunk_events b1 o1;
           b2 = take 10 (drop 10 cs); o2 = upsert_execute w t1 b2;
           t2 = t1 @ chunk_events b2 o2;
           b3 = drop 20 cs; o3 = upsert_execute w t2 b3
       in snd (insert_jobs_to_supabase w jobs_df tr) = t2 @ chunk_events b3 o3 \<and>
          map length [b1, b2, b3] = [10, 10, 3]) \<and>
      map length (upsert_batches (snd (insert_jobs_to_supabase w jobs_df tr))) =
        map length (upsert_batches tr) @ [10, 10, 3])"
  (is "?A \<and> ?B \<and> ?C")
proof -
  let ?m = "(length cs + 9) div 10"
  let ?F = "\<lambda>j out. chunk_events (take 10 (drop (10 * j) cs)) out"
  have a: ?A by (simp add: insert_jobs_to_supabase_def)
  have b: ?B
  proof (intro impI)
    assume h: "\<not> df_empty jobs_df \<and>
      clean_jobs (now_isoformat w tr) 0 (to_dict_records jobs_df) = Inr cs"
    then have ins: "insert_jobs_to_supabase w jobs_df tr = (Inr (), insert_batches w cs 0 tr)"
      by (simp add: insert_jobs_to_supabase_def)
    from insert_batches_outcomes [of cs 0 w tr] obtain outs where
      l: "length outs = ?m" and
      i: "insert_batches w cs 0 tr = tr @ concat (map2 ?F [0 ..< ?m] outs)" and
      t: "\<forall>j < ?m. outs ! j =
            upsert_execute w (tr @ concat (map2 ?F [0 ..< j] outs))
              (take 10 (drop (10 * j) cs))" by auto
    from l i t ins have 1: "\<exists>outs. length outs = ?m \<and>
         insert_jobs_to_supabase w jobs_df tr = (Inr (), tr @ concat (map2 ?F [0 ..< ?m] outs)) \<and>
         (\<forall>j < ?m. outs ! j =
            upsert_execute w (tr @ concat (map2 ?F [0 ..< j] outs))
              (take 10 (drop (10 * j) cs)))" by auto
    have "upsert_batches (concat (map2 ?F [0 ..< ?m] outs)) =
        map (\<lambda>j. take 10 (drop (10 * j) cs)) [0 ..< ?m]"
      using l by (simp add: chunks_batches map_fst_zip flip: map_map)
    with i ins have 2: "upsert_batches (snd (insert_jobs_to_supabase w jobs_df tr)) =
        upsert_batches tr @ map (\<lambda>j. take 10 (drop (10 * j) cs)) [0 ..< ?m]"
      by (simp add: upsert_batches_append)
    from h have 3: "length cs = df_len jobs_df"
      using clean_jobs_length [of "now_isoformat w tr" 0 "to_dict_records jobs_df" cs]
      by (simp add: to_dict_records_def df_len_def)
    from 1 2 3 show "(\<exists>outs. length outs = ?m \<and>
         insert_jobs_to_supabase w jobs_df tr = (Inr (), tr @ concat (map2 ?F [0 ..< ?m] outs)) \<and>
         (\<forall>j < ?m. outs ! j =
            upsert_execute w (tr @ concat (map2 ?F [0 ..< j] outs))
              (take 10 (drop (10 * j) cs)))) \<and>
      upsert_batches (snd (insert_jobs_to_supabase w jobs_df tr)) =
        upsert_batches tr @ map (\<lambda>j. take 10 (drop (10 * j) cs)) [0 ..< ?m] \<and>
      length cs = df_len jobs_df" by (intro conjI)
  qed
  have c: ?C
  proof (intro impI)
    assume h: "\<not> df_empty jobs_df \<and> df_len jobs_df = 23 \<and>
      clean_jobs (now_isoformat w tr) 0 (to_dict_records jobs_df) = Inr cs"
    then have len: "length cs = 23"
      using clean_jobs_length [of "now_isoformat w tr" 0 "to_dict_records jobs_df" cs]
      by (simp add: to_dict_records_def df_len_def)
    from h have ins: "snd (insert_jobs_to_supabase w jobs_df tr) = insert_batches w cs 0 tr"
      by (simp add: insert_jobs_to_supabase_def)
    define b1 where "b1 = take 10 cs"
    define o1 where "o1 = upsert_execute w tr b1"
    define t1 where "t1 = tr @ chunk_events b1 o1"
    define b2 where "b2 = take 10 (drop 10 cs)"
    define o2 where "o2 = upsert_execute w t1 b2"
    define t2 where "t2 = t1 @ chunk_events b2 o2"
    define b3 where "b3 = drop 20 cs"
    define o3 where "o3 = upsert_execute w t2 b3"
    have s1: "insert_batches w cs 0 tr = insert_batches w cs 10 t1"
      using insert_batches_step [of 0 cs w tr] len by (simp add: t1_def o1_def b1_def)
    have s2: "insert_batches w cs 10 t1 = insert_batches w cs 20 t2"
      using insert_batches_step [of 10 cs w t1] len by (simp add: t2_def o2_def b2_def)
    have s3: "insert_batches w cs 20 t2 = insert_batches w cs 30 (t2 @ chunk_events b3 o3)"
      using insert_batches_step [of 20 cs w t2] len by (simp add: o3_def b3_def)
    have s4: "insert_batches w cs 30 (t2 @ chunk_events b3 o3) = t2 @ chunk_events b3 o3"
      using insert_batches_stop [of cs 30 w] len by simp
    from ins s1 s2 s3 s4
    have r: "snd (insert_jobs_to_supabase w jobs_df tr) = t2 @ chunk_events b3 o3" by simp
    have n: "map length [b1, b2, b3] = [10, 10, 3]"
      using len by (simp add: b1_def b2_def b3_def)
    from r n have 1: "(let b1 = take 10 cs; o1 = upsert_execute w tr b1;
           t1 = tr @ chunk_events b1 o1;
           b2 = take 10 (drop 10 cs); o2 = upsert_execute w t1 b2;
           t2 = t1 @ chunk_events b2 o2;
           b3 = drop 20 cs; o3 = upsert_execute w t2 b3
       in snd (insert_jobs_to_supabase w jobs_df tr) = t2 @ chunk_events b3 o3 \<and>
          map length [b1, b2, b3] = [10, 10, 3])"
      unfolding Let_def b1_def o1_def t1_def b2_def o2_def t2_def b3_def o3_def by simp
    have "upsert_batches (chunk_events b out) = [b]" for b out
      by (simp add: chunk_events_def split: option.splits)
    with r n have 2: "map length (upsert_batches (snd (insert_jobs_to_supabase w jobs_df tr))) =
        map length (upsert_batches tr) @ [10, 10, 3]"
      by (simp add: t2_def t1_def upsert_batches_append)
    from 1 2 show "(let b1 = take 10 cs; o1 = upsert_execute w tr b1;
           t1 = tr @ chunk_events b1 o1;
           b2 = take 10 (drop 10 cs); o2 = upsert_execute w t1 b2;
           t2 = t1 @ chunk_events b2 o2;
           b3 = drop 20 cs; o3 = upsert_execute w t2 b3
       in snd (insert_jobs_to_supabase w jobs_df tr) = t2 @ chunk_events b3 o3 \<and>
          map length [b1, b2, b3] = [10, 10, 3]) \<and>
      map length (upsert_batches (snd (insert_jobs_to_supabase w jobs_df tr))) =
        map length (upsert_batches tr) @ [10, 10, 3]" by (intro conjI)
  qed
  from a b c show ?thesis by (intro conjI)
qed

text \<open>An empty table, and 23 records with an accepting store: three chunks, three pauses.\<close>

theorem chunks_of_ten_witness:
  "df_empty pd_DataFrame \<and>
   insert_jobs_to_supabase accepting_world pd_DataFrame [] = (Inr (), [Log INFO NoJobsToInsert]) \<and>
   \<not> df_empty jobs23 \<and> df_len jobs23 = 23 \<and>
   (\<exists>cs. clean_jobs (now_isoformat accepting_world []) 0 (to_dict_records jobs23) = Inr cs \<and>
      upsert_batches (snd (insert_jobs_to_supabase accepting_world jobs23 [])) =
        [take 10 cs, take 10 (drop 10 cs), drop 20 cs]) \<and>
   map length (upsert_batches (snd (insert_jobs_to_supabase accepting_world jobs23 []))) =
     [10, 10, 3] \<and>
   sleeps (snd (insert_jobs_to_supabase accepting_world jobs23 [])) = [2, 2, 2]"
proof -
  define cs where
    "cs = replicate 23 [(''id'', CStr ''li-1''), (''scraped_at'', CStr ''2025-01-01T00:00:00'')]"
  have len: "length cs = 23" by (simp add: cs_def)
  have e: "df_empty pd_DataFrame" by (simp add: df_empty_def pd_DataFrame_def)
  have d: "\<not> df_empty jobs23" by (simp add: df_empty_def jobs23_def)
  have n: "df_len jobs23 = 23" by (simp add: df_len_def jobs23_def)
  have c: "clean_jobs (now_isoformat accepting_world []) 0 (to_dict_records jobs23) = Inr cs"
    unfolding cs_def by code_simp
  have s: "sleeps (snd (insert_jobs_to_supabase accepting_world jobs23 [])) = [2, 2, 2]"
    by code_simp
  have u: "[0 ..< 3] = [0, 1, 2::nat]" by (simp add: upt_rec)
  from chunks_of_ten [of jobs23 accepting_world "[]" cs] d c
  have "upsert_batches (snd (insert_jobs_to_supabase accepting_world jobs23 [])) =
      upsert_batches [] @
      map (\<lambda>j. take 10 (drop (10 * j) cs)) [0 ..< (length cs + 9) div 10]"
    by blast
  then have b: "upsert_batches (snd (insert_jobs_to_supabase accepting_world jobs23 [])) =
        [take 10 cs, take 10 (drop 10 cs), drop 20 cs]"
    by (simp add: len u)
  from chunks_of_ten [of jobs23 accepting_world "[]" cs] d n c
  have "map length (upsert_batches (snd (insert_jobs_to_supabase accepting_world jobs23 []))) =
     map length (upsert_batches []) @ [10, 10, 3]" by blast
  then have l: "map length (upsert_batches (snd (insert_jobs_to_supabase accepting_world jobs23 []))) =
     [10, 10, 3]" by simp
  from chunks_of_ten [of pd_DataFrame accepting_world "[]"] e
  have i: "insert_jobs_to_supabase accepting_world pd_DataFrame [] =
      (Inr (), [Log INFO NoJobsToInsert])" by simp
  from c b have "\<exists>cs. clean_jobs (now_isoformat accepting_world []) 0 (to_dict_records jobs23) = Inr cs \<and>
      upsert_batches (snd (insert_jobs_to_supabase accepting_world jobs23 [])) =
        [take 10 cs, take 10 (drop 10 cs), drop 20 cs]" by blast
  with e i d n l s show ?thesis by (intro conjI)
qed

text \<open>
  C7 as stated does not hold: with a store that rejects the upserts, the three upserts of
  23 records follow one another with no pause between them.
\<close>

theorem rejected_chunks_have_no_pause:
  "map length (upsert_batches (snd (insert_jobs_to_supabase rejecting_world jobs23 []))) =
     [10, 10, 3] \<and>
   sleeps (snd (insert_jobs_to_supabase rejecting_world jobs23 [])) = []"
  by code_simp

section \<open>Pauses\<close>

text \<open>
  C5, as the code has it. The pause after a location is unconditional: the round of every
  location ends with the sleep of 10 seconds, whatever the fetch and the write did. The
  pause after a chunk is not. What the writer adds to the trace is the events of its chunks
  one after another: for a chunk the store accepts, the upsert, its log line and the sleep
  of 2 seconds; for a chunk the store rejects, the upsert and its error line, with no
  sleep. The store's answer to a chunk is that of \<^verbatim>\<open>execute\<close> on the trace up to this
  chunk. So there is one sleep of 2 seconds for each accepted upsert, right after it, and
  none elsewhere; with an empty table or an exception in cleaning the writer only logs a
  line.
\<close>

theorem pauses_follow_success:
  "(\<exists>new. snd (process_location w location total_jobs tr) = tr @ new @ [Sleep 10]) \<and>
   (\<exists>new. snd (insert_jobs_to_supabase w jobs_df tr) = tr @ new \<and>
          sleeps new = replicate (accepted_upserts new) 2) \<and>
   (df_empty jobs_df \<or>
    clean_jobs (now_isoformat w tr) 0 (to_dict_records jobs_df) = Inl e \<longrightarrow>
      (\<exists>l m. snd (insert_jobs_to_supabase w jobs_df tr) = tr @ [Log l m])) \<and>
   (\<not> df_empty jobs_df \<and>
    clean_jobs (now_isoformat w tr) 0 (to_dict_records jobs_df) = Inr cs \<longrightarrow>
      (\<exists>outs. length outs = (length cs + 9) div 10 \<and>
         snd (insert_jobs_to_supabase w jobs_df tr) =
           tr @ concat (map2 (\<lambda>j out. chunk_events (take 10 (drop (10 * j) cs)) out)
                          [0 ..< (length cs + 9) div 10] outs) \<and>
         (\<forall>j < (length cs + 9) div 10.
            outs ! j =
              upsert_execute w
                (tr @ concat (map2 (\<lambda>i out. chunk_events (take 10 (drop (10 * i) cs)) out)
                                [0 ..< j] outs))
                (take 10 (drop (10 * j) cs)) \<and>
            sleeps (chunk_events (take 10 (drop (10 * j) cs)) (outs ! j)) =
              (if outs ! j = None then [2] else []))))"
  (is "?A \<and> ?B \<and> ?C \<and> ?D")
proof -
  let ?m = "(length cs + 9) div 10"
  let ?F = "\<lambda>j out. chunk_events (take 10 (drop (10 * j) cs)) out"
  have a: ?A by (rule process_location_ends)
  have b: ?B
  proof (cases "clean_jobs (now_isoformat w tr) 0 (to_dict_records jobs_df)")
    case (Inl e)
    then show ?thesis by (simp add: insert_jobs_to_supabase_def)
  next
    case (Inr cs)
    from insert_batches_from [of cs 0 w tr] obtain outs where
      "insert_batches w cs 0 tr =
         tr @ concat (map2 (\<lambda>j out. chunk_events (take 10 (drop (10 * j) cs)) out)
                        [0 ..< (length cs + 9) div 10] outs)" by auto
    with Inr show ?thesis
      by (simp add: insert_jobs_to_supabase_def chunks_sleeps)
  qed
  have c: ?C by (auto simp: insert_jobs_to_supabase_def)
  have d: ?D
  proof (intro impI)
    assume h: "\<not> df_empty jobs_df \<and>
      clean_jobs (now_isoformat w tr) 0 (to_dict_records jobs_df) = Inr cs"
    then have ins: "snd (insert_jobs_to_supabase w jobs_df tr) = insert_batches w cs 0 tr"
      by (simp add: insert_jobs_to_supabase_def)
    from insert_batches_outcomes [of cs 0 w tr] obtain outs where
      l: "length outs = ?m" and
      i: "insert_batches w cs 0 tr = tr @ concat (map2 ?F [0 ..< ?m] outs)" and
      t: "\<forall>j < ?m. outs ! j =
            upsert_execute w (tr @ concat (map2 ?F [0 ..< j] outs))
              (take 10 (drop (10 * j) cs))" by auto
    have s: "sleeps (chunk_events b out) = (if out = None then [2] else [])" for b out
      by (simp add: chunk_events_def split: option.splits)
    from l i t ins s show "\<exists>outs. length outs = ?m \<and>
         snd (insert_jobs_to_supabase w jobs_df tr) = tr @ concat (map2 ?F [0 ..< ?m] outs) \<and>
         (\<forall>j < ?m. outs ! j =
            upsert_execute w (tr @ concat (map2 ?F [0 ..< j] outs))
              (take 10 (drop (10 * j) cs)) \<and>
            sleeps (chunk_events (take 10 (drop (10 * j) cs)) (outs ! j)) =
              (if outs ! j = None then [2] else []))" by auto
  qed
  from a b c d show ?thesis by (intro conjI)
qed

text \<open>
  23 records and a store that accepts the first upsert only: three upserts, and one pause,
  after the first.
\<close>

theorem pauses_follow_success_witness:
  "\<not> df_empty jobs23 \<and>
   (\<exists>cs. clean_jobs (now_isoformat flaky_world []) 0 (to_dict_records jobs23) = Inr cs \<and>
      (\<exists>outs. length outs = 3 \<and>
         snd (insert_jobs_to_supabase flaky_world jobs23 []) =
           chunk_events (take 10 cs) (outs ! 0) @
           chunk_events (take 10 (drop 10 cs)) (outs ! 1) @
           chunk_events (drop 20 cs) (outs ! 2))) \<and>
   map length (upsert_batches (snd (insert_jobs_to_supabase flaky_world jobs23 []))) =
     [10, 10, 3] \<and>
   accepted_upserts (snd (insert_jobs_to_supabase flaky_world jobs23 [])) = 1 \<and>
   sleeps (snd (insert_jobs_to_supabase flaky_world jobs23 [])) = [2] \<and>
   take 4 (snd (insert_jobs_to_supabase flaky_world jobs23 [])) =
     [Upsert ''job_listings'' ''id''
        (replicate 10 [(''id'', CStr ''li-1''), (''scraped_at'', CStr ''2025-01-01T00:00:00'')])
        True,
      Log INFO (InsertedBatch 10), Sleep 2,
      Upsert ''job_listings'' ''id''
        (replicate 10 [(''id'', CStr ''li-1''), (''scraped_at'', CStr ''2025-01-01T00:00:00'')])
        False] \<and>
   df_empty pd_DataFrame \<and>
   snd (insert_jobs_to_supabase flaky_world pd_DataFrame []) = [Log INFO NoJobsToInsert]"
proof -
  define cs where
    "cs = replicate 23 [(''id'', CStr ''li-1''), (''scraped_at'', CStr ''2025-01-01T00:00:00'')]"
  have len: "length cs = 23" by (simp add: cs_def)
  have d: "\<not> df_empty jobs23" by (simp add: df_empty_def jobs23_def)
  have c: "clean_jobs (now_isoformat flaky_world []) 0 (to_dict_records jobs23) = Inr cs"
    unfolding cs_def by code_simp
  have u: "[0 ..< 3] = [0, 1, 2::nat]" by (simp add: upt_rec)
  from pauses_follow_success [of flaky_world _ _ "[]" jobs23 _ cs] d c
  obtain outs where l0: "length outs = (length cs + 9) div 10"
    and t: "snd (insert_jobs_to_supabase flaky_world jobs23 []) =
      [] @ concat (map2 (\<lambda>j out. chunk_events (take 10 (drop (10 * j) cs)) out)
                     [0 ..< (length cs + 9) div 10] outs)"
    by blast
  from l0 len have l: "length outs = 3" by simp
  then obtain o1 o2 o3 where o: "outs = [o1, o2, o3]"
    by (auto simp: numeral_3_eq_3 length_Suc_conv)
  from t have "snd (insert_jobs_to_supabase flaky_world jobs23 []) =
           chunk_events (take 10 cs) (outs ! 0) @
           chunk_events (take 10 (drop 10 cs)) (outs ! 1) @
           chunk_events (drop 20 cs) (outs ! 2)"
    by (simp add: o u len)
  with l c have 1: "\<exists>cs. clean_jobs (now_isoformat flaky_world []) 0 (to_dict_records jobs23) = Inr cs \<and>
      (\<exists>outs. length outs = 3 \<and>
         snd (insert_jobs_to_supabase flaky_world jobs23 []) =
           chunk_events (take 10 cs) (outs ! 0) @
           chunk_events (take 10 (drop 10 cs)) (outs ! 1) @
           chunk_events (drop 20 cs) (outs ! 2))" by blast
  have 2: "map length (upsert_batches (snd (insert_jobs_to_supabase flaky_world jobs23 []))) =
     [10, 10, 3]" by code_simp
  have 3: "accepted_upserts (snd (insert_jobs_to_supabase flaky_world jobs23 [])) = 1"
    by code_simp
  from pauses_follow_success [of flaky_world _ _ "[]" jobs23] 3
  have 4: "sleeps (snd (insert_jobs_to_supabase flaky_world jobs23 [])) = [2]"
    by (auto simp: sleeps_append accepted_upserts_append)
  have 6: "take 4 (snd (insert_jobs_to_supabase flaky_world jobs23 [])) =
     [Upsert ''job_listings'' ''id''
        (replicate 10 [(''id'', CStr ''li-1''), (''scraped_at'', CStr ''2025-01-01T00:00:00'')])
        True,
      Log INFO (InsertedBatch 10), Sleep 2,
      Upsert ''job_listings'' ''id''
        (replicate 10 [(''id'', CStr ''li-1''), (''scraped_at'', CStr ''2025-01-01T00:00:00'')])
        False]"
    by code_simp
  have e: "df_empty pd_DataFrame" by (simp add: df_empty_def pd_DataFrame_def)
  have 5: "snd (insert_jobs_to_supabase flaky_world pd_DataFrame []) = [Log INFO NoJobsToInsert]"
    by code_simp
  from d 1 2 3 4 6 e 5 show ?thesis by (intro conjI)
qed

text \<open>
  C5 as stated does not hold: when the store rejects the upsert of a chunk, the error is
  logged and no sleep follows.
\<close>

theorem failed_chunk_has_no_pause:
  "snd (insert_jobs_to_supabase rejecting_world one_job []) =
     [Upsert ''job_listings'' ''id''
        [[(''id'', CStr ''li-1''), (''title'', CStr ''Product Manager''),
          (''scraped_at'', CStr ''2025-01-01T00:00:00'')]] False,
      Log ERROR (FailedBatch (OtherException ''APIError''))]"
  by code_simp

section \<open>The run\<close>

lemma run_locations_fetched:
  "fst (run_locations w locs total_jobs tr) =
     total_jobs + sum_list (map (fetched_count w) locs)"
  using run_locations_total [of w locs total_jobs tr]
  by (simp add: fetched_count_def [abs_def])

text \<open>
  C4, as the code has it. Errors of a location and of a chunk are absorbed, and the run
  returns \<^verbatim>\<open>True\<close>; but \<^verbatim>\<open>total_jobs\<close> counts every record fetched from a location
  with a non-empty table, whether or not its chunks were written: the total is the same
  whatever the store does.
\<close>

theorem total_counts_fetched:
  "fst (run_scrape w tr) = Inr True \<and>
   last (snd (run_scrape w tr)) =
     Log INFO (Completed (sum_list (map (fetched_count w) locations))) \<and>
   last (snd (run_scrape (w\<lparr>upsert_execute := store\<rparr>) tr)) = last (snd (run_scrape w tr))"
proof -
  have l: "last (snd (run_scrape w' tr)) =
      Log INFO (Completed (sum_list (map (fetched_count w') locations)))" for w'
    using run_locations_fetched [of w' locations 0 "tr @ [Log INFO Starting]"]
    by (auto simp: run_scrape_def split: prod.splits)
  have "fetched_count (w\<lparr>upsert_execute := store\<rparr>) = fetched_count w"
    by (simp add: fetched_count_def [abs_def])
  with l [of w] l [of "w\<lparr>upsert_execute := store\<rparr>"] show ?thesis
    by (simp add: run_scrape_def split: prod.splits)
qed

text \<open>
  C4 as stated does not hold: one record is fetched, its only upsert is rejected, and the
  run reports a total of 1.
\<close>

theorem failed_write_is_counted:
  "last (snd (run_scrape rejecting_world [])) = Log INFO (Completed 1) \<and>
   map length (upsert_batches (snd (run_scrape rejecting_world []))) = [1] \<and>
   accepted_upserts (snd (run_scrape rejecting_world [])) = 0"
  by code_simp

text \<open>
  C8. \<^verbatim>\<open>run_scrape\<close> always returns \<^verbatim>\<open>True\<close> and calls the provider for each of the
  seven locations in their order, whatever provider and store do; the route answers with
  an error exactly when \<^verbatim>\<open>JobScraper()\<close> raises.
\<close>

theorem run_always_completes:
  "fst (run_scrape w tr) = Inr True \<and>
   scrape_calls (snd (run_scrape w tr)) = scrape_calls tr @ locations \<and>
   fst (trigger_scrape w tr) =
     (case fst (JobScraper_init w tr) of
        Inl e \<Rightarrow> Response ''error'' 500
      | Inr u \<Rightarrow> Response ''success'' 200)"
proof -
  obtain total tr' where r: "run_locations w locations 0 (tr @ [Log INFO Starting]) = (total, tr')"
    by (cases "run_locations w locations 0 (tr @ [Log INFO Starting])")
  from run_locations_calls [of w locations 0 "tr @ [Log INFO Starting]"] r
  have c: "scrape_calls tr' = scrape_calls tr @ locations" by (simp add: scrape_calls_append)
  have t: "fst (run_scrape w tr0) = Inr True" for tr0
    by (simp add: run_scrape_def split: prod.splits)
  have "fst (trigger_scrape w tr) =
     (case fst (JobScraper_init w tr) of
        Inl e \<Rightarrow> Response ''error'' 500
      | Inr u \<Rightarrow> Response ''success'' 200)"
  proof (cases "JobScraper_init w tr")
    case (Pair i tr1)
    obtain s tr2 where rs: "run_scrape w tr1 = (s, tr2)" by (cases "run_scrape w tr1")
    with t [of tr1] have "s = Inr True" by simp
    with Pair rs show ?thesis by (cases i) (simp_all add: trigger_scrape_def)
  qed
  with t [of tr] c r show ?thesis by (simp add: run_scrape_def scrape_calls_append)
qed

end
